theory Spec2Isabelle
  imports Main "HOL-Library.Word"
begin

section \<open>Data model of \<open>main.py\<close>\<close>

text \<open>
  The application object \<open>VoiceToTextApp\<close> is a record of the attributes its methods read
  and write. The two Tk text widgets are the strings they display, the messagebox calls
  are collected in \<open>dialogs\<close>, and every call into an external collaborator (file system,
  ffmpeg, the Vosk recognizer, LanguageTool) is appended to the trace \<open>calls\<close>.
  \<open>threads_started\<close> counts \<open>threading.Thread(...).start()\<close>, \<open>callbacks_run\<close> counts the
  callbacks that \<open>root.after\<close> ran on the interactive thread, and \<open>uncaught\<close> collects the
  messages of the exceptions that ended a worker thread.
\<close>

type_synonym bytes = "8 word list"

type_synonym json = "(string \<times> string) list"

datatype dialog = ShowError string string | ShowWarning string string

datatype call =
    Call_subprocess_run "string list"
  | Call_open string
  | Call_AcceptWaveform bytes
  | Call_Result
  | Call_FinalResult
  | Call_check string
  | Call_correct string

record 'r app =
  recognizer :: 'r
  is_recording :: bool
  audio_data :: bytes
  text_box :: string
  placeholder_box :: string
  record_label :: "string \<times> string"
  dialogs :: "dialog list"
  calls :: "call list"
  threads_started :: nat
  callbacks_run :: nat
  uncaught :: "string list"

text \<open>
  The external collaborators are parameters. A call that raises returns \<open>Inl\<close> of the
  exception's message (\<open>str(e)\<close>). \<open>Result\<close> and \<open>FinalResult\<close> stand for the recognizer call
  followed by \<open>json.loads\<close>; they return the decoded object and the recognizer's next state.
  \<open>subprocess_run\<close> returns the exit status and the bytes of standard output.
\<close>

record ('r, 'm) env =
  AcceptWaveform :: "'r \<Rightarrow> bytes \<Rightarrow> string + (bool \<times> 'r)"
  Result :: "'r \<Rightarrow> string + (json \<times> 'r)"
  FinalResult :: "'r \<Rightarrow> string + (json \<times> 'r)"
  open_rb :: "string \<Rightarrow> string + bytes"
  subprocess_run :: "string list \<Rightarrow> string + (int \<times> bytes)"
  tool_check :: "string \<Rightarrow> string + 'm list"
  tool_correct :: "string \<Rightarrow> string + string"

section \<open>Library functions used by the code\<close>

text \<open>\<open>str.isspace\<close> on one character, for the code points below 256.\<close>

definition isspace :: "char \<Rightarrow> bool" where
  "isspace c =
     (let n = (of_char c :: nat)
      in (9 \<le> n \<and> n \<le> 13) \<or> (28 \<le> n \<and> n \<le> 32) \<or> n = 133 \<or> n = 160)"

text \<open>\<open>str.strip()\<close>: leading and trailing whitespace removed.\<close>

definition strip :: "string \<Rightarrow> string" where
  "strip t = rev (dropWhile isspace (rev (dropWhile isspace t)))"

text \<open>\<open>str.startswith\<close>.\<close>

definition startswith :: "string \<Rightarrow> string \<Rightarrow> bool" where
  "startswith t p = (take (length p) t = p)"

text \<open>\<open>str.lower()\<close>, for the code points below 256.\<close>

definition lower_char :: "char \<Rightarrow> char" where
  "lower_char c =
     (let n = (of_char c :: nat)
      in if (65 \<le> n \<and> n \<le> 90) \<or> (192 \<le> n \<and> n \<le> 222 \<and> n \<noteq> 215)
         then char_of (n + 32) else c)"

definition lower :: "string \<Rightarrow> string" where
  "lower t = map lower_char t"

text \<open>\<open>str.rfind\<close> of one character: the last index where it occurs, or \<open>-1\<close>.\<close>

fun rfind_from :: "nat \<Rightarrow> string \<Rightarrow> char \<Rightarrow> int \<Rightarrow> int" where
  "rfind_from i [] c found = found"
| "rfind_from i (x # xs) c found = rfind_from (Suc i) xs c (if x = c then int i else found)"

definition rfind :: "string \<Rightarrow> char \<Rightarrow> int" where
  "rfind p c = rfind_from 0 p c (- 1)"

text \<open>
  \<open>os.path.splitext\<close> (POSIX): the extension starts at the last dot of the last path
  component, unless that component has only leading dots before it.
\<close>

definition splitext :: "string \<Rightarrow> string \<times> string" where
  "splitext p =
     (let sepIndex = rfind p (CHR ''/'');
          dotIndex = rfind p (CHR ''.'')
      in if dotIndex > sepIndex
            \<and> list_ex (\<lambda>c. c \<noteq> CHR ''.'')
                 (take (nat dotIndex - nat (sepIndex + 1)) (drop (nat (sepIndex + 1)) p))
         then (take (nat dotIndex) p, drop (nat dotIndex) p)
         else (p, []))"

text \<open>\<open>dict.get(key, default)\<close> on the decoded JSON object.\<close>

definition dict_get :: "json \<Rightarrow> string \<Rightarrow> string \<Rightarrow> string" where
  "dict_get d k dflt = (case map_of d k of Some v \<Rightarrow> v | None \<Rightarrow> dflt)"

section \<open>The methods of \<open>VoiceToTextApp\<close>\<close>

text \<open>The state that \<open>__init__\<close> leaves when the model bundle was found (lines 47 to 57).\<close>

definition init_app :: "'r \<Rightarrow> 'r app" where
  "init_app r =
     \<lparr> recognizer = r, is_recording = False, audio_data = [], text_box = [],
       placeholder_box = [], record_label = (''raised'', ''lightgray''), dialogs = [],
       calls = [], threads_started = 0, callbacks_run = 0, uncaught = [] \<rparr>"

definition log_call :: "call \<Rightarrow> 'r app \<Rightarrow> 'r app" where
  "log_call c s = s\<lparr>calls := calls s @ [c]\<rparr>"

text \<open>\<open>text_box.get(1.0, tk.END)\<close>: the content followed by the widget's final newline.\<close>

definition text_box_get :: "'r app \<Rightarrow> string" where
  "text_box_get s = text_box s @ [CHR 0x0A]"

definition reset_app :: "'r app \<Rightarrow> 'r app" where
  "reset_app s = (s\<lparr>text_box := []\<rparr>)\<lparr>placeholder_box := []\<rparr>"

definition enable_manual_input :: "'r app \<Rightarrow> 'r app" where
  "enable_manual_input s = reset_app s"

text \<open>
  \<open>run_in_thread\<close>: the worker runs \<open>func\<close>; when \<open>func\<close> returns, the callback (if any) runs
  on the interactive thread with the result; when \<open>func\<close> raises, nothing catches the
  exception in \<open>worker\<close>, the thread ends and the callback is never scheduled. The model
  runs one task to its end before the next event.
\<close>

definition run_in_thread ::
  "('r app \<Rightarrow> (string + 'a) \<times> 'r app) \<Rightarrow> ('a \<Rightarrow> 'r app \<Rightarrow> 'r app) option \<Rightarrow> 'r app \<Rightarrow> 'r app" where
  "run_in_thread func callback s =
     (let s0 = s\<lparr>threads_started := Suc (threads_started s)\<rparr>
      in case func s0 of
           (Inl e, s1) \<Rightarrow> s1\<lparr>uncaught := uncaught s1 @ [e]\<rparr>
         | (Inr result, s1) \<Rightarrow>
             (case callback of
                None \<Rightarrow> s1
              | Some cb \<Rightarrow> cb result (s1\<lparr>callbacks_run := Suc (callbacks_run s1)\<rparr>)))"

subsection \<open>\<open>load_audio_file\<close>\<close>

definition ffmpeg_argv :: "string \<Rightarrow> string list" where
  "ffmpeg_argv file_path =
     [''ffmpeg'', ''-i'', file_path, ''-ar'', ''16000'', ''-ac'', ''1'', ''-f'', ''wav'', ''pipe:1'']"

text \<open>
  The inner \<open>task\<close> (lines 141 to 162). Every exception is caught and turned into the
  string \<open>"Error: " + str(e)\<close>, so the task always returns.
\<close>

definition load_audio_file_task ::
  "('r, 'm) env \<Rightarrow> string \<Rightarrow> 'r app \<Rightarrow> (string + string) \<times> 'r app" where
  "load_audio_file_task E file_path s =
     (let file_ext = lower (snd (splitext file_path));
          (got, s1) =
            (if file_ext \<noteq> ''.wav''
             then (case subprocess_run E (ffmpeg_argv file_path) of
                     Inl e \<Rightarrow> Inl e
                   | Inr (returncode, stdout) \<Rightarrow> Inr stdout,
                   log_call (Call_subprocess_run (ffmpeg_argv file_path)) s)
             else (open_rb E file_path, log_call (Call_open file_path) s))
      in case got of
           Inl e \<Rightarrow> (Inr (''Error: '' @ e), s1)
         | Inr data \<Rightarrow>
             (let s2 = log_call (Call_AcceptWaveform data) s1
              in case AcceptWaveform E (recognizer s2) data of
                   Inl e \<Rightarrow> (Inr (''Error: '' @ e), s2)
                 | Inr (boundary, r3) \<Rightarrow>
                     (let s3 = s2\<lparr>recognizer := r3\<rparr>
                      in if boundary
                         then (let s4 = log_call Call_Result s3
                               in case Result E (recognizer s4) of
                                    Inl e \<Rightarrow> (Inr (''Error: '' @ e), s4)
                                  | Inr (result, r5) \<Rightarrow>
                                      (Inr (dict_get result ''text'' ''''),
                                       s4\<lparr>recognizer := r5\<rparr>))
                         else (Inr '''', s3))))"

text \<open>The inner \<open>on_complete\<close> (lines 164 to 169).\<close>

definition load_audio_file_on_complete :: "string \<Rightarrow> 'r app \<Rightarrow> 'r app" where
  "load_audio_file_on_complete text s =
     (if startswith text ''Error:''
      then s\<lparr>dialogs := dialogs s @ [ShowError ''Error'' text]\<rparr>
      else (let s1 = s\<lparr>text_box := []\<rparr>
            in s1\<lparr>text_box := text_box s1 @ text\<rparr>))"

text \<open>\<open>file_path\<close> is what the file dialog returned; the empty string is a cancel.\<close>

definition load_audio_file :: "('r, 'm) env \<Rightarrow> string \<Rightarrow> 'r app \<Rightarrow> 'r app" where
  "load_audio_file E file_path s =
     (if file_path = [] then s
      else (let s1 = s\<lparr>text_box := []\<rparr>;
                s2 = s1\<lparr>text_box := text_box s1 @ ''Processing audio file...''\<rparr>
            in run_in_thread (load_audio_file_task E file_path)
                 (Some load_audio_file_on_complete) s2))"

subsection \<open>Push-to-talk recording\<close>

text \<open>
  \<open>start_walkie_talkie_recording\<close> starts a thread that runs \<open>record_microphone\<close>; the
  count of started threads is kept here, the thread itself is added in \<open>step\<close> below.
\<close>

definition start_walkie_talkie_recording :: "'r app \<Rightarrow> 'r app" where
  "start_walkie_talkie_recording s =
     (let s1 = s\<lparr>is_recording := True\<rparr>;
          s2 = s1\<lparr>record_label := (''sunken'', ''red'')\<rparr>;
          s3 = reset_app s2;
          s4 = s3\<lparr>text_box := text_box s3 @ ''Recording... Speak now.''\<rparr>
      in s4\<lparr>threads_started := Suc (threads_started s4)\<rparr>)"

definition stop_walkie_talkie_recording :: "'r app \<Rightarrow> 'r app" where
  "stop_walkie_talkie_recording s =
     (s\<lparr>is_recording := False\<rparr>)\<lparr>record_label := (''raised'', ''lightgray'')\<rparr>"

text \<open>
  \<open>record_microphone\<close> (lines 184 to 212) is the body of a recording thread. The button
  handlers run on the interactive thread while recording threads run, and nothing stops
  a second press from starting a second recording thread beside the first, so the body
  is modelled as steps that interleave with the handlers and with other threads. A
  thread keeps its position, its local variables \<open>data\<close> and \<open>text\<close>, the intermediate
  value of \<open>self.audio_data += data\<close> (a read of the attribute, then a write), and the
  list of chunks it has read so far.
\<close>

datatype pc =
    L185 | L194 | L196 | L197 | L198_load | L198_store | L199
  | L202 | L207 | L211 | L212 | Returned | Raised string

record rec_thread =
  th_pc :: pc
  th_data :: bytes
  th_sum :: bytes
  th_text :: string
  th_chunks :: "bytes list"

definition new_thread :: rec_thread where
  "new_thread = \<lparr> th_pc = L185, th_data = [], th_sum = [], th_text = [], th_chunks = [] \<rparr>"

text \<open>An exception ends the thread where it is raised; nothing catches it.\<close>

definition raise_in_thread :: "string \<Rightarrow> rec_thread \<Rightarrow> 'r app \<Rightarrow> rec_thread \<times> 'r app" where
  "raise_in_thread e th s = (th\<lparr>th_pc := Raised e\<rparr>, s\<lparr>uncaught := uncaught s @ [e]\<rparr>)"

text \<open>
  What the audio device does when the thread asks: opening it (lines 185 to 192) and
  \<open>stream.read(4096)\<close> (line 197) succeed, raise, or, for a read, are still blocking.
\<close>

datatype device = Quiet | Fails string | Delivers bytes

text \<open>
  One step of \<open>record_microphone\<close>: the statement at the thread's position, on the shared
  application state. \<open>L185\<close> is lines 185 to 192, \<open>L202\<close> is lines 202 to 204, \<open>L207\<close> is
  lines 207 and 208.
\<close>

fun record_microphone_step ::
  "('r, 'm) env \<Rightarrow> device \<Rightarrow> pc \<Rightarrow> rec_thread \<Rightarrow> 'r app \<Rightarrow> rec_thread \<times> 'r app" where
  "record_microphone_step E dev L185 th s =
     (case dev of
        Fails e \<Rightarrow> raise_in_thread e th s
      | _ \<Rightarrow> (th\<lparr>th_pc := L194\<rparr>, s))"
| "record_microphone_step E dev L194 th s =
     (th\<lparr>th_pc := L196\<rparr>, s\<lparr>audio_data := []\<rparr>)"
| "record_microphone_step E dev L196 th s =
     (th\<lparr>th_pc := (if is_recording s then L197 else L202)\<rparr>, s)"
| "record_microphone_step E dev L197 th s =
     (case dev of
        Quiet \<Rightarrow> (th, s)
      | Fails e \<Rightarrow> raise_in_thread e th s
      | Delivers d \<Rightarrow>
          (th\<lparr>th_pc := L198_load, th_data := d, th_chunks := th_chunks th @ [d]\<rparr>, s))"
| "record_microphone_step E dev L198_load th s =
     (th\<lparr>th_pc := L198_store, th_sum := audio_data s @ th_data th\<rparr>, s)"
| "record_microphone_step E dev L198_store th s =
     (th\<lparr>th_pc := L199\<rparr>, s\<lparr>audio_data := th_sum th\<rparr>)"
| "record_microphone_step E dev L199 th s =
     (let s1 = log_call (Call_AcceptWaveform (th_data th)) s
      in case AcceptWaveform E (recognizer s1) (th_data th) of
           Inl e \<Rightarrow> raise_in_thread e th s1
         | Inr (boundary, r) \<Rightarrow> (th\<lparr>th_pc := L196\<rparr>, s1\<lparr>recognizer := r\<rparr>))"
| "record_microphone_step E dev L202 th s = (th\<lparr>th_pc := L207\<rparr>, s)"
| "record_microphone_step E dev L207 th s =
     (let s1 = log_call Call_FinalResult s
      in case FinalResult E (recognizer s1) of
           Inl e \<Rightarrow> raise_in_thread e th s1
         | Inr (final_result, r) \<Rightarrow>
             (th\<lparr>th_pc := L211, th_text := dict_get final_result ''text'' ''''\<rparr>,
              s1\<lparr>recognizer := r\<rparr>))"
| "record_microphone_step E dev L211 th s = (th\<lparr>th_pc := L212\<rparr>, s\<lparr>text_box := []\<rparr>)"
| "record_microphone_step E dev L212 th s =
     (th\<lparr>th_pc := Returned\<rparr>, s\<lparr>text_box := text_box s @ th_text th\<rparr>)"
| "record_microphone_step E dev Returned th s = (th, s)"
| "record_microphone_step E dev (Raised e) th s = (th, s)"

subsection \<open>\<open>submit_text\<close>\<close>

text \<open>The inner \<open>task\<close> (lines 223 to 226); it has no exception handler.\<close>

definition submit_text_task ::
  "('r, 'm) env \<Rightarrow> string \<Rightarrow> 'r app \<Rightarrow> (string + ('m list \<times> string option \<times> string)) \<times> 'r app" where
  "submit_text_task E raw_text s =
     (let s1 = log_call (Call_check raw_text) s
      in case tool_check E raw_text of
           Inl e \<Rightarrow> (Inl e, s1)
         | Inr matches \<Rightarrow>
             (if matches \<noteq> []
              then (let s2 = log_call (Call_correct raw_text) s1
                    in case tool_correct E raw_text of
                         Inl e \<Rightarrow> (Inl e, s2)
                       | Inr corrected \<Rightarrow> (Inr (matches, Some corrected, raw_text), s2))
              else (Inr (matches, None, raw_text), s1)))"

text \<open>
  The inner \<open>on_complete\<close> (lines 228 to 234). \<open>corrected\<close> is \<open>None\<close> only together with an
  empty \<open>matches\<close>, where it is not read; the model leaves the pane empty if it were.
\<close>

definition submit_text_on_complete ::
  "'m list \<times> string option \<times> string \<Rightarrow> 'r app \<Rightarrow> 'r app" where
  "submit_text_on_complete result s =
     (case result of (matches, corrected, raw) \<Rightarrow>
        (let s1 = s\<lparr>placeholder_box := []\<rparr>
         in if matches = []
            then s1\<lparr>placeholder_box := placeholder_box s1 @ ''CORRECT''\<rparr>
            else s1\<lparr>placeholder_box := placeholder_box s1
                      @ (case corrected of Some t \<Rightarrow> t | None \<Rightarrow> [])\<rparr>))"

definition submit_text :: "('r, 'm) env \<Rightarrow> 'r app \<Rightarrow> 'r app" where
  "submit_text E s =
     (let raw_text = strip (text_box_get s)
      in if raw_text = []
         then s\<lparr>dialogs := dialogs s @ [ShowWarning ''No Content'' ''The input box is empty.'']\<rparr>
         else (let s1 = s\<lparr>placeholder_box := []\<rparr>;
                   s2 = s1\<lparr>placeholder_box := placeholder_box s1 @ ''Checking grammar...''\<rparr>
               in run_in_thread (submit_text_task E raw_text)
                    (Some submit_text_on_complete) s2))"

subsection \<open>The application and its threads\<close>

text \<open>
  The application with its recording threads, and what can happen next: a button of the
  window is used (press and release of the record label, Load Recording with the chosen
  path, Submit, Reset, Write Text), or recording thread \<open>i\<close> runs its next statement. A
  press runs \<open>start_walkie_talkie_recording\<close> and adds the thread it starts. Load and
  Submit run their handler together with its background job; neither reads or writes
  \<open>is_recording\<close> or \<open>audio_data\<close>.
\<close>

datatype event =
    Press | Release | Step nat device
  | Load string | Submit | Reset | Write

record 'r world =
  app :: "'r app"
  threads :: "rec_thread list"

fun step :: "('r, 'm) env \<Rightarrow> event \<Rightarrow> 'r world \<Rightarrow> 'r world" where
  "step E Press w =
     \<lparr> app = start_walkie_talkie_recording (app w), threads = threads w @ [new_thread] \<rparr>"
| "step E Release w = w\<lparr>app := stop_walkie_talkie_recording (app w)\<rparr>"
| "step E (Step i dev) w =
     (if i < length (threads w)
      then (case record_microphone_step E dev (th_pc (threads w ! i)) (threads w ! i) (app w) of
              (th, s) \<Rightarrow> \<lparr> app = s, threads = (threads w)[i := th] \<rparr>)
      else w)"
| "step E (Load file_path) w = w\<lparr>app := load_audio_file E file_path (app w)\<rparr>"
| "step E Submit w = w\<lparr>app := submit_text E (app w)\<rparr>"
| "step E Reset w = w\<lparr>app := reset_app (app w)\<rparr>"
| "step E Write w = w\<lparr>app := enable_manual_input (app w)\<rparr>"

fun run :: "('r, 'm) env \<Rightarrow> event list \<Rightarrow> 'r world \<Rightarrow> 'r world" where
  "run E [] w = w"
| "run E (e # es) w = run E es (step E e w)"

definition init_world :: "'r \<Rightarrow> 'r world" where
  "init_world r = \<lparr> app = init_app r, threads = [] \<rparr>"

section \<open>Auxiliary definitions\<close>

text \<open>The calls that a run appended to the trace.\<close>

definition new_calls :: "'r app \<Rightarrow> 'r app \<Rightarrow> call list" where
  "new_calls s s' = drop (length (calls s)) (calls s')"

fun is_recognizer_call :: "call \<Rightarrow> bool" where
  "is_recognizer_call (Call_AcceptWaveform d) = True"
| "is_recognizer_call Call_Result = True"
| "is_recognizer_call Call_FinalResult = True"
| "is_recognizer_call c = False"

fun is_source_call :: "call \<Rightarrow> bool" where
  "is_source_call (Call_subprocess_run argv) = True"
| "is_source_call (Call_open p) = True"
| "is_source_call c = False"

text \<open>
  The three parts of \<open>load_audio_file_task\<close>, named so that properties can speak of them:
  the bytes that lines 143 to 153 obtain, the call that obtains them, and lines 155 to
  162 on a buffer. \<open>load_task_factored\<close> below proves that the worker function is their
  composition.
\<close>

definition audio_bytes :: "('r, 'm) env \<Rightarrow> string \<Rightarrow> string + bytes" where
  "audio_bytes E file_path =
     (if lower (snd (splitext file_path)) \<noteq> ''.wav''
      then (case subprocess_run E (ffmpeg_argv file_path) of
              Inl e \<Rightarrow> Inl e
            | Inr (returncode, stdout) \<Rightarrow> Inr stdout)
      else open_rb E file_path)"

definition source_call :: "string \<Rightarrow> call" where
  "source_call file_path =
     (if lower (snd (splitext file_path)) \<noteq> ''.wav''
      then Call_subprocess_run (ffmpeg_argv file_path) else Call_open file_path)"

definition recognize_buffer ::
  "('r, 'm) env \<Rightarrow> bytes \<Rightarrow> 'r app \<Rightarrow> (string + string) \<times> 'r app" where
  "recognize_buffer E data s1 =
     (let s2 = log_call (Call_AcceptWaveform data) s1
      in case AcceptWaveform E (recognizer s2) data of
           Inl e \<Rightarrow> (Inr (''Error: '' @ e), s2)
         | Inr (boundary, r3) \<Rightarrow>
             (let s3 = s2\<lparr>recognizer := r3\<rparr>
              in if boundary
                 then (let s4 = log_call Call_Result s3
                       in case Result E (recognizer s4) of
                            Inl e \<Rightarrow> (Inr (''Error: '' @ e), s4)
                          | Inr (result, r5) \<Rightarrow>
                              (Inr (dict_get result ''text'' ''''), s4\<lparr>recognizer := r5\<rparr>))
                 else (Inr '''', s3)))"

text \<open>
  A recording thread that has ended, and what holds at each position of the recording
  thread of a session in which the button is not pressed again: the buffer is the
  concatenation of the chunks read so far (at line 198, up to the pending update), and
  once the loop has been left the flag is cleared.
\<close>

fun ended :: "pc \<Rightarrow> bool" where
  "ended Returned = True"
| "ended (Raised e) = True"
| "ended l = False"

fun session_inv_at :: "pc \<Rightarrow> rec_thread \<Rightarrow> 'r app \<Rightarrow> bool" where
  "session_inv_at L185 th s = (th_chunks th = [])"
| "session_inv_at L194 th s = (th_chunks th = [])"
| "session_inv_at L196 th s = (audio_data s = concat (th_chunks th))"
| "session_inv_at L197 th s = (audio_data s = concat (th_chunks th))"
| "session_inv_at L198_load th s = (audio_data s @ th_data th = concat (th_chunks th))"
| "session_inv_at L198_store th s = (th_sum th = concat (th_chunks th))"
| "session_inv_at L199 th s = (audio_data s = concat (th_chunks th))"
| "session_inv_at (Raised e) th s = True"
| "session_inv_at l th s = (audio_data s = concat (th_chunks th) \<and> \<not> is_recording s)"

definition session_inv :: "nat \<Rightarrow> 'r world \<Rightarrow> bool" where
  "session_inv n w =
     (length (threads w) = Suc n
      \<and> list_all (\<lambda>th. ended (th_pc th)) (take n (threads w))
      \<and> session_inv_at (th_pc (threads w ! n)) (threads w ! n) (app w))"

text \<open>
  Three sessions. In the first the button is pressed, one chunk is read, the button is
  released during the chunk's processing, and the thread runs to its end. The second (to
  follow a press) reads two chunks, with a Submit and two releases in between. In the
  third the button is pressed again just before the first thread calls \<open>FinalResult\<close>.
\<close>

definition one_chunk_session :: "event list" where
  "one_chunk_session =
     [Press, Step 0 Quiet, Step 0 Quiet, Step 0 Quiet, Step 0 (Delivers [1, 2]), Release,
      Step 0 Quiet, Step 0 Quiet, Step 0 Quiet, Step 0 Quiet, Step 0 Quiet, Step 0 Quiet,
      Step 0 Quiet, Step 0 Quiet, Step 0 Quiet]"

definition two_chunk_session :: "event list" where
  "two_chunk_session =
     [Step 0 Quiet, Step 0 Quiet, Step 0 Quiet, Step 0 (Delivers [1, 2]), Step 0 Quiet,
      Submit, Step 0 Quiet, Step 0 Quiet, Step 0 Quiet, Step 0 (Delivers [3]), Release,
      Step 0 Quiet, Step 0 Quiet, Release, Step 0 Quiet, Step 0 Quiet, Step 0 Quiet,
      Step 0 Quiet, Step 0 Quiet, Step 0 Quiet]"

definition repress_session :: "event list" where
  "repress_session =
     [Press, Step 0 Quiet, Step 0 Quiet, Step 0 Quiet, Step 0 (Delivers [1, 2]), Release,
      Step 0 Quiet, Step 0 Quiet, Step 0 Quiet, Step 0 Quiet, Step 0 Quiet, Press,
      Step 0 Quiet, Step 0 Quiet, Step 0 Quiet]"

text \<open>
  Concrete collaborators, for evaluating the methods on concrete inputs. The recognizer's
  state is the audio it has accepted since its last result; it reports an utterance
  boundary once it holds four bytes or more, and a result empties it. Three files exist,
  every transcoder run exits with status 1 and no output, and the grammar engine knows
  one mistake.
\<close>

definition stub_transcribe :: "bytes \<Rightarrow> string" where
  "stub_transcribe r =
     (if r = [] then [] else if r = [1, 2, 3, 4] then ''Error: boom'' else ''hello'')"

definition stub_env :: "(bytes, string) env" where
  "stub_env =
     \<lparr> AcceptWaveform = (\<lambda>r data. Inr (4 \<le> length (r @ data), r @ data)),
       Result = (\<lambda>r. Inr ([(''text'', stub_transcribe r)], [])),
       FinalResult = (\<lambda>r. Inr ([(''text'', stub_transcribe r)], [])),
       open_rb = (\<lambda>p. if p = ''a.wav'' then Inr [1, 2]
                        else if p = ''e.WAV'' then Inr [1, 2, 3, 4]
                        else if p = ''h.wav'' then Inr [5, 6, 7, 8]
                        else Inl ''No such file''),
       subprocess_run = (\<lambda>argv. Inr (1, [])),
       tool_check = (\<lambda>t. Inr (if t = ''i am'' then [''UPPERCASE_SENTENCE_START''] else [])),
       tool_correct = (\<lambda>t. Inr (if t = ''i am'' then ''I am'' else t)) \<rparr>"

section \<open>Properties\<close>

subsection \<open>Auxiliary lemmas\<close>

lemma new_calls_append: "calls s' = calls s @ cs \<Longrightarrow> new_calls s s' = cs"
  by (simp add: new_calls_def)

lemma load_task_factored:
  "load_audio_file_task E p s =
     (case audio_bytes E p of
        Inl e \<Rightarrow> (Inr (''Error: '' @ e), log_call (source_call p) s)
      | Inr data \<Rightarrow> recognize_buffer E data (log_call (source_call p) s))"
proof (cases "lower (snd (splitext p)) \<noteq> ''.wav''")
  case True
  show ?thesis
  proof (cases "subprocess_run E (ffmpeg_argv p)")
    case (Inl e)
    with True show ?thesis
      by (simp add: load_audio_file_task_def audio_bytes_def source_call_def)
  next
    case (Inr x)
    obtain returncode out where "x = (returncode, out)" by (cases x)
    with True Inr show ?thesis
      by (simp add: load_audio_file_task_def audio_bytes_def source_call_def
                    recognize_buffer_def)
  qed
next
  case False
  show ?thesis
  proof (cases "open_rb E p")
    case (Inl e)
    with False show ?thesis
      by (simp add: load_audio_file_task_def audio_bytes_def source_call_def)
  next
    case (Inr data)
    with False show ?thesis
      by (simp add: load_audio_file_task_def audio_bytes_def source_call_def
                    recognize_buffer_def)
  qed
qed

lemma recognize_buffer_trace:
  assumes "AcceptWaveform E (recognizer s) data = Inr (boundary, r)"
  shows "calls (snd (recognize_buffer E data s))
           = calls s @ (if boundary then [Call_AcceptWaveform data, Call_Result]
                        else [Call_AcceptWaveform data])"
    and "fst (recognize_buffer E data s)
           = (if boundary
              then (case Result E r of
                      Inl e \<Rightarrow> Inr (''Error: '' @ e)
                    | Inr (result, r') \<Rightarrow> Inr (dict_get result ''text'' ''''))
              else Inr '''')"
  using assms
  by (simp_all add: recognize_buffer_def log_call_def Let_def split: sum.split prod.split)

lemma recognize_buffer_raise:
  assumes "AcceptWaveform E (recognizer s) data = Inl e"
  shows "recognize_buffer E data s
           = (Inr (''Error: '' @ e), log_call (Call_AcceptWaveform data) s)"
  using assms by (simp add: recognize_buffer_def log_call_def)

lemma load_task_source_fail:
  "audio_bytes E p = Inl e \<Longrightarrow>
     load_audio_file_task E p s = (Inr (''Error: '' @ e), log_call (source_call p) s)"
  by (simp add: load_task_factored)

lemma load_task_accept_fail:
  "audio_bytes E p = Inr data \<Longrightarrow> AcceptWaveform E (recognizer s) data = Inl e \<Longrightarrow>
     load_audio_file_task E p s
       = (Inr (''Error: '' @ e), log_call (Call_AcceptWaveform data) (log_call (source_call p) s))"
  by (simp add: load_task_factored recognize_buffer_def log_call_def)

lemma load_task_accept_ok:
  assumes "audio_bytes E p = Inr data"
      and "AcceptWaveform E (recognizer s) data = Inr (boundary, r)"
  shows "new_calls s (snd (load_audio_file_task E p s))
           = source_call p # Call_AcceptWaveform data # (if boundary then [Call_Result] else [])"
    and "fst (load_audio_file_task E p s)
           = (if boundary
              then (case Result E r of
                      Inl e \<Rightarrow> Inr (''Error: '' @ e)
                    | Inr (result, r') \<Rightarrow> Inr (dict_get result ''text'' ''''))
              else Inr '''')"
proof -
  let ?s1 = "log_call (source_call p) s"
  have acc: "AcceptWaveform E (recognizer ?s1) data = Inr (boundary, r)"
    using assms(2) by (simp add: log_call_def)
  have task: "load_audio_file_task E p s = recognize_buffer E data ?s1"
    using assms(1) by (simp add: load_task_factored)
  have "calls (snd (recognize_buffer E data ?s1))
          = calls s @ source_call p # Call_AcceptWaveform data
              # (if boundary then [Call_Result] else [])"
    using recognize_buffer_trace(1) [OF acc] by (simp add: log_call_def)
  then show "new_calls s (snd (load_audio_file_task E p s))
          = source_call p # Call_AcceptWaveform data # (if boundary then [Call_Result] else [])"
    using task by (simp add: new_calls_append)
  show "fst (load_audio_file_task E p s)
           = (if boundary
              then (case Result E r of
                      Inl e \<Rightarrow> Inr (''Error: '' @ e)
                    | Inr (result, r') \<Rightarrow> Inr (dict_get result ''text'' ''''))
              else Inr '''')"
    using recognize_buffer_trace(2) [OF acc] task by simp
qed

lemma source_call_kind:
  "is_source_call (source_call p)" "\<not> is_recognizer_call (source_call p)"
  by (simp_all add: source_call_def)

lemma load_task_new_calls:
  "new_calls s (snd (load_audio_file_task E p s))
     = source_call p #
       (case audio_bytes E p of
          Inl e \<Rightarrow> []
        | Inr data \<Rightarrow>
            Call_AcceptWaveform data #
            (case AcceptWaveform E (recognizer s) data of
               Inl e \<Rightarrow> []
             | Inr (boundary, r) \<Rightarrow> if boundary then [Call_Result] else []))"
proof (cases "audio_bytes E p")
  case (Inl e)
  then show ?thesis
    by (simp add: load_task_source_fail log_call_def new_calls_append)
next
  case (Inr data)
  show ?thesis
  proof (cases "AcceptWaveform E (recognizer s) data")
    case (Inl e)
    with Inr show ?thesis
      by (simp add: load_task_accept_fail log_call_def new_calls_append)
  next
    case acc: (Inr x)
    obtain boundary r where "x = (boundary, r)" by (cases x)
    with Inr acc show ?thesis
      by (simp add: load_task_accept_ok(1))
  qed
qed

lemma load_task_frame:
  "text_box (snd (load_audio_file_task E p s)) = text_box s"
  "dialogs (snd (load_audio_file_task E p s)) = dialogs s"
  "callbacks_run (snd (load_audio_file_task E p s)) = callbacks_run s"
  "threads_started (snd (load_audio_file_task E p s)) = threads_started s"
  "uncaught (snd (load_audio_file_task E p s)) = uncaught s"
  unfolding load_task_factored
  by (simp_all add: recognize_buffer_def log_call_def Let_def split: sum.split prod.split)

lemma audio_bytes_transcoded:
  "lower (snd (splitext p)) \<noteq> ''.wav'' \<Longrightarrow>
     audio_bytes E p = (case subprocess_run E (ffmpeg_argv p) of
                          Inl e \<Rightarrow> Inl e
                        | Inr (returncode, stdout) \<Rightarrow> Inr stdout)"
  by (simp add: audio_bytes_def)

lemma recognize_buffer_env:
  assumes "AcceptWaveform E' = AcceptWaveform E" and "Result E' = Result E"
  shows "recognize_buffer E' data s = recognize_buffer E data s"
  unfolding recognize_buffer_def assms ..

lemma strip_whitespace_only:
  assumes "\<forall>c \<in> set t. isspace c"
  shows "strip t = []"
proof -
  have d: "dropWhile isspace t = []"
    using assms by simp
  show ?thesis
    unfolding strip_def d by simp
qed

lemma isspace_newline: "isspace (CHR 0x0A)"
  by (simp add: isspace_def)

lemma session_inv_at_frame:
  "audio_data s' = audio_data s \<Longrightarrow> is_recording s' = is_recording s \<Longrightarrow>
     session_inv_at l th s' = session_inv_at l th s"
  by (cases l) simp_all

lemma session_inv_at_release:
  "session_inv_at l th s \<Longrightarrow> session_inv_at l th (stop_walkie_talkie_recording s)"
  by (cases l) (simp_all add: stop_walkie_talkie_recording_def)

lemma ended_step:
  "ended l \<Longrightarrow> record_microphone_step E dev l th s = (th, s)"
  by (cases l) simp_all

lemma thread_step_inv:
  assumes "session_inv_at (th_pc th) th s"
      and "record_microphone_step E dev (th_pc th) th s = (th', s')"
  shows "session_inv_at (th_pc th') th' s'"
proof (cases "th_pc th")
  case L185
  with assms show ?thesis
    by (auto simp: raise_in_thread_def split: device.splits)
next
  case L194
  with assms show ?thesis by auto
next
  case L196
  with assms show ?thesis by auto
next
  case L197
  with assms show ?thesis
    by (auto simp: raise_in_thread_def split: device.splits)
next
  case L198_load
  with assms show ?thesis by auto
next
  case L198_store
  with assms show ?thesis by auto
next
  case L199
  with assms show ?thesis
    by (auto simp: raise_in_thread_def log_call_def Let_def split: sum.splits)
next
  case L202
  with assms show ?thesis by auto
next
  case L207
  with assms show ?thesis
    by (auto simp: raise_in_thread_def log_call_def Let_def split: sum.splits)
next
  case L211
  with assms show ?thesis by auto
next
  case L212
  with assms show ?thesis by auto
next
  case Returned
  with assms show ?thesis by auto
next
  case (Raised e)
  with assms show ?thesis by auto
qed

lemma session_inv_press:
  assumes "list_all (\<lambda>th. ended (th_pc th)) (threads w)"
  shows "session_inv (length (threads w)) (step E Press w)"
  using assms by (simp add: session_inv_def new_thread_def)

lemma submit_text_task_frame:
  "audio_data (snd (submit_text_task E t s)) = audio_data s"
  "is_recording (snd (submit_text_task E t s)) = is_recording s"
  "callbacks_run (snd (submit_text_task E t s)) = callbacks_run s"
  by (simp_all add: submit_text_task_def log_call_def Let_def split: sum.split)

lemma submit_text_on_complete_frame:
  "audio_data (submit_text_on_complete res s) = audio_data s"
  "is_recording (submit_text_on_complete res s) = is_recording s"
  by (simp_all add: submit_text_on_complete_def Let_def split: prod.split)

lemma run_in_thread_frame:
  assumes "\<And>s. audio_data (snd (func s)) = audio_data s"
      and "\<And>s. is_recording (snd (func s)) = is_recording s"
      and "\<And>x s. audio_data (cb x s) = audio_data s"
      and "\<And>x s. is_recording (cb x s) = is_recording s"
  shows "audio_data (run_in_thread func (Some cb) s) = audio_data s"
    and "is_recording (run_in_thread func (Some cb) s) = is_recording s"
proof -
  let ?s0 = "s\<lparr>threads_started := Suc (threads_started s)\<rparr>"
  obtain res s1 where f: "func ?s0 = (res, s1)" by (cases "func ?s0")
  have s1: "audio_data s1 = audio_data s" "is_recording s1 = is_recording s"
    using assms(1,2) [of ?s0] f by simp_all
  show "audio_data (run_in_thread func (Some cb) s) = audio_data s"
    using f s1 assms(3) by (cases res) (simp_all add: run_in_thread_def)
  show "is_recording (run_in_thread func (Some cb) s) = is_recording s"
    using f s1 assms(4) by (cases res) (simp_all add: run_in_thread_def)
qed


lemma load_task_frame_rec:
  "audio_data (snd (load_audio_file_task E p s)) = audio_data s"
  "is_recording (snd (load_audio_file_task E p s)) = is_recording s"
  unfolding load_task_factored
  by (simp_all add: recognize_buffer_def log_call_def Let_def split: sum.split prod.split)

lemma load_audio_file_on_complete_frame:
  "audio_data (load_audio_file_on_complete t s) = audio_data s"
  "is_recording (load_audio_file_on_complete t s) = is_recording s"
  by (simp_all add: load_audio_file_on_complete_def Let_def)

lemma load_audio_file_frame:
  "audio_data (load_audio_file E p s) = audio_data s"
  "is_recording (load_audio_file E p s) = is_recording s"
  using run_in_thread_frame
          [of "load_audio_file_task E p" load_audio_file_on_complete,
           OF load_task_frame_rec load_audio_file_on_complete_frame]
  by (simp_all add: load_audio_file_def Let_def)

lemma submit_text_frame:
  "audio_data (submit_text E s) = audio_data s"
  "is_recording (submit_text E s) = is_recording s"
  using run_in_thread_frame
          [of "submit_text_task E (strip (text_box_get s))" submit_text_on_complete,
           OF submit_text_task_frame(1,2) submit_text_on_complete_frame]
  by (simp_all add: submit_text_def Let_def)

lemma session_inv_step:
  assumes "session_inv n w" and "e \<noteq> Press"
  shows "session_inv n (step E e w)"
proof (cases e)
  case Press
  with assms show ?thesis by simp
next
  case Release
  with assms show ?thesis
    by (simp add: session_inv_def session_inv_at_release)
next
  case (Step i dev)
  show ?thesis
  proof (cases "i < n")
    case True
    then have "ended (th_pc (threads w ! i))"
      using assms(1) by (simp add: session_inv_def list_all_length)
    then have "record_microphone_step E dev (th_pc (threads w ! i)) (threads w ! i) (app w)
                 = (threads w ! i, app w)"
      by (rule ended_step)
    then have "step E e w = w"
      using Step True assms(1) by (simp add: session_inv_def)
    with assms(1) show ?thesis by simp
  next
    case False
    show ?thesis
    proof (cases "i = n")
      case True
      obtain th' s' where st:
        "record_microphone_step E dev (th_pc (threads w ! n)) (threads w ! n) (app w) = (th', s')"
        by (cases "record_microphone_step E dev (th_pc (threads w ! n)) (threads w ! n) (app w)")
      have "session_inv_at (th_pc th') th' s'"
        using thread_step_inv [OF _ st] assms(1) by (simp add: session_inv_def)
      then show ?thesis
        using Step True st assms(1) by (simp add: session_inv_def)
    next
      case neq: False
      with False have "\<not> i < length (threads w)"
        using assms(1) by (simp add: session_inv_def)
      with Step assms(1) show ?thesis by simp
    qed
  qed
next
  case (Load file_path)
  with assms(1) show ?thesis
    by (simp add: session_inv_def session_inv_at_frame [OF load_audio_file_frame])
next
  case Submit
  with assms(1) show ?thesis
    by (simp add: session_inv_def session_inv_at_frame [OF submit_text_frame])
next
  case Reset
  have "session_inv_at l th (reset_app s) = session_inv_at l th s" for l th and s :: "'a app"
    by (rule session_inv_at_frame) (simp_all add: reset_app_def)
  with Reset assms(1) show ?thesis
    by (simp add: session_inv_def)
next
  case Write
  have "session_inv_at l th (enable_manual_input s) = session_inv_at l th s"
    for l th and s :: "'a app"
    by (rule session_inv_at_frame) (simp_all add: enable_manual_input_def reset_app_def)
  with Write assms(1) show ?thesis
    by (simp add: session_inv_def)
qed

lemma session_inv_run:
  "list_all (\<lambda>e. e \<noteq> Press) evs \<Longrightarrow> session_inv n w \<Longrightarrow> session_inv n (run E evs w)"
  by (induction evs arbitrary: w) (simp_all add: session_inv_step)

lemma recognize_buffer_result_recognizer:
  "recognizer s1 = recognizer s2 \<Longrightarrow>
     fst (recognize_buffer E data s1) = fst (recognize_buffer E data s2)"
  by (simp add: recognize_buffer_def log_call_def Let_def split: sum.split prod.split)

lemma load_task_result_recognizer:
  assumes "recognizer s1 = recognizer s2"
  shows "fst (load_audio_file_task E p s1) = fst (load_audio_file_task E p s2)"
proof -
  have "recognizer (log_call (source_call p) s1) = recognizer (log_call (source_call p) s2)"
    using assms by (simp add: log_call_def)
  note same = recognize_buffer_result_recognizer [OF this]
  show ?thesis
  proof (cases "audio_bytes E p")
    case (Inl e)
    then show ?thesis by (simp add: load_task_factored)
  next
    case (Inr data)
    then show ?thesis using same [of E data] by (simp add: load_task_factored)
  qed
qed

text \<open>
  The worker function of \<open>load_audio_file\<close> never raises, so a chosen file always leads to
  exactly one run of its completion handler.
\<close>

lemma load_task_returns: "\<exists>text. fst (load_audio_file_task E p s) = Inr text"
  unfolding load_task_factored
  by (auto simp: recognize_buffer_def Let_def split: sum.split prod.split)

lemma load_audio_file_one_outcome:
  assumes "file_path \<noteq> []"
  shows "callbacks_run (load_audio_file E file_path s) = Suc (callbacks_run s)
         \<and> uncaught (load_audio_file E file_path s) = uncaught s"
proof -
  let ?s0 = "s\<lparr>text_box := ''Processing audio file...'',
                threads_started := Suc (threads_started s)\<rparr>"
  obtain t s1 where task: "load_audio_file_task E file_path ?s0 = (Inr t, s1)"
    using load_task_returns [of E file_path ?s0]
    by (cases "load_audio_file_task E file_path ?s0") auto
  have frame: "callbacks_run s1 = callbacks_run s" "uncaught s1 = uncaught s"
    using load_task_frame(3,5) [of E file_path ?s0] task by simp_all
  have "load_audio_file E file_path s
          = load_audio_file_on_complete t (s1\<lparr>callbacks_run := Suc (callbacks_run s1)\<rparr>)"
    using assms task by (simp add: load_audio_file_def run_in_thread_def)
  then show ?thesis
    using frame by (simp add: load_audio_file_on_complete_def)
qed

text \<open>
  The worker function of \<open>submit_text\<close> lets an exception of the grammar engine's check
  through: the completion handler does not run and the output pane keeps its placeholder.
\<close>

lemma submit_text_check_raises:
  assumes "strip (text_box_get s) = raw_text" and "raw_text \<noteq> []"
      and "tool_check E raw_text = Inl e"
  shows "callbacks_run (submit_text E s) = callbacks_run s
         \<and> uncaught (submit_text E s) = uncaught s @ [e]
         \<and> dialogs (submit_text E s) = dialogs s
         \<and> placeholder_box (submit_text E s) = ''Checking grammar...''"
  using assms
  by (simp add: submit_text_def run_in_thread_def submit_text_task_def log_call_def Let_def)

subsection \<open>The audio buffer of a recording session\<close>

text \<open>
  C1, as stated, fails. In the session below the button is pressed, one chunk is read,
  the button is released and the recording thread returns: the application is idle again
  (\<open>is_recording\<close> is \<open>False\<close> and no recording thread is running) while the buffer still
  holds the chunk.
\<close>

theorem idle_buffer_not_empty_counterexample:
  "th_pc (threads (run stub_env one_chunk_session (init_world [])) ! 0) = Returned
   \<and> is_recording (app (run stub_env one_chunk_session (init_world []))) = False
   \<and> audio_data (app (run stub_env one_chunk_session (init_world []))) = [1, 2]"
  by code_simp

text \<open>
  A second press is not held back while a recording thread is still running: pressed
  again before that thread has returned, the button leaves \<open>is_recording\<close> set when the
  thread ends.
\<close>

lemma press_before_thread_returns:
  "th_pc (threads (run stub_env repress_session (init_world [])) ! 0) = Returned
   \<and> is_recording (app (run stub_env repress_session (init_world []))) = True"
  by code_simp

text \<open>
  C1, amended. The buffer is cleared when a recording thread begins, not when it stops.
  Take a session that starts with a press while no earlier recording thread is still
  running, and in which the button is not pressed again; releases, the other buttons and
  steps of the thread may follow in any order. When the session's recording thread has
  returned, \<open>is_recording\<close> is \<open>False\<close> and the buffer holds exactly the chunks the thread
  read, in the order read, whatever the buffer held before the session. It is then empty
  only if no chunk was read.
\<close>

theorem solo_session_buffer:
  assumes "list_all (\<lambda>th. ended (th_pc th)) (threads w)"
      and "list_all (\<lambda>e. e \<noteq> Press) evs"
      and "th_pc (threads (run E (Press # evs) w) ! length (threads w)) = Returned"
  shows "\<not> is_recording (app (run E (Press # evs) w))
         \<and> audio_data (app (run E (Press # evs) w))
             = concat (th_chunks (threads (run E (Press # evs) w) ! length (threads w)))"
proof -
  have "session_inv (length (threads w)) (run E (Press # evs) w)"
    using session_inv_run [OF assms(2) session_inv_press [OF assms(1)]] by simp
  then show ?thesis
    using assms(3) by (simp add: session_inv_def)
qed

text \<open>
  An instance: a session that starts with a stale buffer and reads two chunks, with a
  Submit between them.
\<close>

theorem solo_session_buffer_witness:
  "list_all (\<lambda>th. ended (th_pc th)) (threads ((init_world ([]::bytes))\<lparr>app := (init_app [])\<lparr>audio_data := [9]\<rparr>\<rparr>))
   \<and> list_all (\<lambda>e. e \<noteq> Press) two_chunk_session
   \<and> th_pc (threads (run stub_env (Press # two_chunk_session)
               ((init_world [])\<lparr>app := (init_app [])\<lparr>audio_data := [9]\<rparr>\<rparr>))
            ! length (threads ((init_world ([]::bytes))\<lparr>app := (init_app [])\<lparr>audio_data := [9]\<rparr>\<rparr>)))
       = Returned
   \<and> \<not> is_recording (app (run stub_env (Press # two_chunk_session)
               ((init_world [])\<lparr>app := (init_app [])\<lparr>audio_data := [9]\<rparr>\<rparr>)))
   \<and> audio_data (app (run stub_env (Press # two_chunk_session)
               ((init_world [])\<lparr>app := (init_app [])\<lparr>audio_data := [9]\<rparr>\<rparr>)))
       = [1, 2, 3]"
proof -
  let ?w = "(init_world ([]::bytes))\<lparr>app := (init_app [])\<lparr>audio_data := [9]\<rparr>\<rparr>"
  have h1: "list_all (\<lambda>th. ended (th_pc th)) (threads ?w)"
    by code_simp
  have h2: "list_all (\<lambda>e. e \<noteq> Press) two_chunk_session"
    by code_simp
  have h3: "th_pc (threads (run stub_env (Press # two_chunk_session) ?w) ! length (threads ?w))
              = Returned"
    by code_simp
  have c: "concat (th_chunks (threads (run stub_env (Press # two_chunk_session) ?w)
                                ! length (threads ?w))) = [1, 2, 3]"
    by code_simp
  note concl = solo_session_buffer [OF h1 h2 h3, unfolded c]
  show ?thesis
    using h1 h2 h3 concl by blast
qed

subsection \<open>What the file pipeline asks of the recognizer\<close>

text \<open>
  C2. After feeding the whole buffer to the recognizer in one call, the file pipeline
  should finalize the recognizer and return that transcript, as the recording thread
  does with \<open>FinalResult\<close> after its loop. The file pipeline asks for a result only when
  \<open>AcceptWaveform\<close> reported an utterance boundary. Evaluated on the two-byte file, where it
  reports none: the only recognizer call is the \<open>AcceptWaveform\<close>, the returned text is
  empty, the file's audio stays in the shared recognizer, and finalizing at that point
  would have given the transcript \<open>hello\<close>.
\<close>

theorem file_task_drops_transcript:
  "filter is_recognizer_call
     (calls (snd (load_audio_file_task stub_env ''a.wav'' (init_app []))))
     = [Call_AcceptWaveform [1, 2]]
   \<and> fst (load_audio_file_task stub_env ''a.wav'' (init_app [])) = Inr ''''
   \<and> recognizer (snd (load_audio_file_task stub_env ''a.wav'' (init_app []))) = [1, 2]
   \<and> map_sum id fst (FinalResult stub_env [1, 2]) = Inr [(''text'', ''hello'')]"
  by code_simp

subsection \<open>Errors raised in background work\<close>

text \<open>
  C3. Every error raised in a background job should be caught and reach the interactive
  surface as exactly one outcome. The worker function of \<open>load_audio_file\<close> does catch
  every exception (\<open>load_audio_file_one_outcome\<close>), but the worker function of
  \<open>submit_text\<close> and \<open>run_in_thread\<close> catch none. Evaluated with a grammar engine whose
  check raises: the exception ends the worker thread, the completion handler never runs,
  no dialog is shown, and the output pane keeps its busy placeholder, so the interactive
  surface receives no outcome.
\<close>

theorem grammar_task_exception_escapes:
  "tool_check (stub_env\<lparr>tool_check := (\<lambda>t. Inl ''LanguageTool is not running'')\<rparr>) ''i am''
     = Inl ''LanguageTool is not running''
   \<and> callbacks_run (submit_text (stub_env\<lparr>tool_check := (\<lambda>t. Inl ''LanguageTool is not running'')\<rparr>)
        ((init_app [])\<lparr>text_box := ''i am''\<rparr>)) = 0
   \<and> dialogs (submit_text (stub_env\<lparr>tool_check := (\<lambda>t. Inl ''LanguageTool is not running'')\<rparr>)
        ((init_app [])\<lparr>text_box := ''i am''\<rparr>)) = []
   \<and> uncaught (submit_text (stub_env\<lparr>tool_check := (\<lambda>t. Inl ''LanguageTool is not running'')\<rparr>)
        ((init_app [])\<lparr>text_box := ''i am''\<rparr>)) = [''LanguageTool is not running'']
   \<and> placeholder_box (submit_text (stub_env\<lparr>tool_check := (\<lambda>t. Inl ''LanguageTool is not running'')\<rparr>)
        ((init_app [])\<lparr>text_box := ''i am''\<rparr>)) = ''Checking grammar...''
   \<and> threads_started (submit_text (stub_env\<lparr>tool_check := (\<lambda>t. Inl ''LanguageTool is not running'')\<rparr>)
        ((init_app [])\<lparr>text_box := ''i am''\<rparr>)) = 1"
  by code_simp

subsection \<open>Grammar review\<close>

text \<open>
  C4. When the input pane is empty or holds only whitespace, \<open>submit_text\<close> shows the
  "No Content" warning and does nothing else: no worker thread is started, the grammar
  engine is not called (the trace of calls is unchanged), and the output pane is not
  touched.
\<close>

theorem submit_text_empty_input:
  assumes "list_all isspace (text_box s)"
  shows "submit_text E s
           = s\<lparr>dialogs := dialogs s @ [ShowWarning ''No Content'' ''The input box is empty.'']\<rparr>
         \<and> threads_started (submit_text E s) = threads_started s
         \<and> calls (submit_text E s) = calls s
         \<and> placeholder_box (submit_text E s) = placeholder_box s"
proof -
  have "\<forall>c \<in> set (text_box_get s). isspace c"
    using assms isspace_newline by (simp add: text_box_get_def list_all_iff)
  then have "strip (text_box_get s) = []"
    by (rule strip_whitespace_only)
  then show ?thesis
    by (simp add: submit_text_def)
qed

text \<open>An instance: a pane holding a space, a tab and a newline.\<close>

theorem submit_text_empty_input_witness:
  "list_all isspace (text_box ((init_app ([]::bytes))\<lparr>text_box := [CHR '' '', CHR 0x09, CHR 0x0A]\<rparr>))
   \<and> submit_text stub_env ((init_app [])\<lparr>text_box := [CHR '' '', CHR 0x09, CHR 0x0A]\<rparr>)
       = (init_app [])\<lparr>text_box := [CHR '' '', CHR 0x09, CHR 0x0A],
                        dialogs := [ShowWarning ''No Content'' ''The input box is empty.'']\<rparr>
   \<and> threads_started (submit_text stub_env
        ((init_app [])\<lparr>text_box := [CHR '' '', CHR 0x09, CHR 0x0A]\<rparr>)) = 0
   \<and> calls (submit_text stub_env
        ((init_app [])\<lparr>text_box := [CHR '' '', CHR 0x09, CHR 0x0A]\<rparr>)) = []"
proof -
  let ?s = "(init_app ([]::bytes))\<lparr>text_box := [CHR '' '', CHR 0x09, CHR 0x0A]\<rparr>"
  have h: "list_all isspace (text_box ?s)"
    by (simp add: isspace_def)
  show ?thesis
    using submit_text_empty_input [OF h, of stub_env] h
    by (simp add: init_app_def)
qed

text \<open>
  C5. For a pane whose stripped text is not empty, \<open>submit_text\<close> calls the engine's check
  on that text. With no issue found it makes no other engine call and the output pane
  shows the clean verdict \<open>CORRECT\<close>; with one issue or more it then calls the engine's
  correct on the same text, and the output pane shows the corrected text that call
  returns.
\<close>

theorem submit_text_verdict:
  assumes "strip (text_box_get s) = raw_text" and "raw_text \<noteq> []"
      and "tool_check E raw_text = Inr matches"
  shows "if matches = []
         then new_calls s (submit_text E s) = [Call_check raw_text]
              \<and> placeholder_box (submit_text E s) = ''CORRECT''
         else new_calls s (submit_text E s) = [Call_check raw_text, Call_correct raw_text]
              \<and> (case tool_correct E raw_text of
                    Inl e \<Rightarrow> True
                  | Inr corrected \<Rightarrow> placeholder_box (submit_text E s) = corrected)"
  using assms
  by (simp add: submit_text_def run_in_thread_def submit_text_task_def
                submit_text_on_complete_def log_call_def new_calls_def Let_def
           split: sum.split)

text \<open>An instance: a text with one issue.\<close>

theorem submit_text_verdict_witness:
  "strip (text_box_get ((init_app ([]::bytes))\<lparr>text_box := '' i am ''\<rparr>)) = ''i am''
   \<and> ''i am'' \<noteq> []
   \<and> tool_check stub_env ''i am'' = Inr [''UPPERCASE_SENTENCE_START'']
   \<and> new_calls ((init_app [])\<lparr>text_box := '' i am ''\<rparr>)
        (submit_text stub_env ((init_app [])\<lparr>text_box := '' i am ''\<rparr>))
       = [Call_check ''i am'', Call_correct ''i am'']
   \<and> placeholder_box (submit_text stub_env ((init_app [])\<lparr>text_box := '' i am ''\<rparr>)) = ''I am''"
proof -
  let ?s = "(init_app ([]::bytes))\<lparr>text_box := '' i am ''\<rparr>"
  have t: "strip (text_box_get ?s) = ''i am''"
    by code_simp
  have n: "''i am'' \<noteq> []"
    by simp
  have c: "tool_check stub_env ''i am'' = Inr [''UPPERCASE_SENTENCE_START'']"
    by code_simp
  have k: "tool_correct stub_env ''i am'' = Inr ''I am''"
    by code_simp
  show ?thesis
    using submit_text_verdict [OF t n c] t n c
    unfolding k by simp
qed

subsection \<open>Transcoding\<close>

text \<open>
  C6. The file pipeline makes exactly one call to obtain the bytes: for a path whose
  lower-cased extension is \<open>.wav\<close> it opens and reads the file and never runs the
  transcoder; for any other extension it runs \<open>ffmpeg\<close> on the path with sample rate
  16000, one channel and the wav container written to standard output, and never opens
  the file itself. The bytes so obtained are the ones handed to the recognizer, unchanged.
\<close>

theorem transcoder_iff_not_wav:
  "filter is_source_call (new_calls s (snd (load_audio_file_task E p s)))
     = [if lower (snd (splitext p)) = ''.wav'' then Call_open p
        else Call_subprocess_run
               [''ffmpeg'', ''-i'', p, ''-ar'', ''16000'', ''-ac'', ''1'', ''-f'', ''wav'', ''pipe:1'']]
   \<and> take 1 (filter is_recognizer_call (new_calls s (snd (load_audio_file_task E p s))))
     = (case (if lower (snd (splitext p)) = ''.wav'' then open_rb E p
              else (case subprocess_run E
                      [''ffmpeg'', ''-i'', p, ''-ar'', ''16000'', ''-ac'', ''1'', ''-f'', ''wav'', ''pipe:1''] of
                      Inl e \<Rightarrow> Inl e
                    | Inr (returncode, stdout) \<Rightarrow> Inr stdout)) of
          Inl e \<Rightarrow> []
        | Inr data \<Rightarrow> [Call_AcceptWaveform data])"
proof -
  have src: "source_call p
      = (if lower (snd (splitext p)) = ''.wav'' then Call_open p
         else Call_subprocess_run
               [''ffmpeg'', ''-i'', p, ''-ar'', ''16000'', ''-ac'', ''1'', ''-f'', ''wav'', ''pipe:1''])"
    by (simp add: source_call_def ffmpeg_argv_def)
  have bytes: "audio_bytes E p
      = (if lower (snd (splitext p)) = ''.wav'' then open_rb E p
              else (case subprocess_run E
                      [''ffmpeg'', ''-i'', p, ''-ar'', ''16000'', ''-ac'', ''1'', ''-f'', ''wav'', ''pipe:1''] of
                      Inl e \<Rightarrow> Inl e
                    | Inr (returncode, stdout) \<Rightarrow> Inr stdout))"
    by (simp add: audio_bytes_def ffmpeg_argv_def)
  have tail: "filter is_source_call
       (case audio_bytes E p of
          Inl e \<Rightarrow> []
        | Inr data \<Rightarrow>
            Call_AcceptWaveform data #
            (case AcceptWaveform E (recognizer s) data of
               Inl e \<Rightarrow> []
             | Inr (boundary, r) \<Rightarrow> if boundary then [Call_Result] else [])) = []"
    by (simp split: sum.split prod.split)
  have first: "take 1 (filter is_recognizer_call
       (case audio_bytes E p of
          Inl e \<Rightarrow> []
        | Inr data \<Rightarrow>
            Call_AcceptWaveform data #
            (case AcceptWaveform E (recognizer s) data of
               Inl e \<Rightarrow> []
             | Inr (boundary, r) \<Rightarrow> if boundary then [Call_Result] else [])))
       = (case audio_bytes E p of Inl e \<Rightarrow> [] | Inr data \<Rightarrow> [Call_AcceptWaveform data])"
    by (simp split: sum.split)
  have "filter is_source_call (new_calls s (snd (load_audio_file_task E p s))) = [source_call p]"
    unfolding load_task_new_calls using tail by (simp add: source_call_kind)
  moreover have "take 1 (filter is_recognizer_call (new_calls s (snd (load_audio_file_task E p s))))
       = (case audio_bytes E p of Inl e \<Rightarrow> [] | Inr data \<Rightarrow> [Call_AcceptWaveform data])"
    unfolding load_task_new_calls using first by (simp add: source_call_kind)
  ultimately show ?thesis
    unfolding src bytes by simp
qed

text \<open>Two instances: an upper-case \<open>.WAV\<close> path and an \<open>.mp3\<close> path.\<close>

theorem transcoder_iff_not_wav_witness:
  "filter is_source_call
     (new_calls (init_app []) (snd (load_audio_file_task stub_env ''e.WAV'' (init_app []))))
     = [Call_open ''e.WAV'']
   \<and> take 1 (filter is_recognizer_call
       (new_calls (init_app []) (snd (load_audio_file_task stub_env ''e.WAV'' (init_app [])))))
     = [Call_AcceptWaveform [1, 2, 3, 4]]
   \<and> filter is_source_call
     (new_calls (init_app []) (snd (load_audio_file_task stub_env ''a.mp3'' (init_app []))))
     = [Call_subprocess_run
          [''ffmpeg'', ''-i'', ''a.mp3'', ''-ar'', ''16000'', ''-ac'', ''1'', ''-f'', ''wav'', ''pipe:1'']]"
proof -
  have w: "lower (snd (splitext ''e.WAV'')) = ''.wav''"
    by code_simp
  have m: "lower (snd (splitext ''a.mp3'')) \<noteq> ''.wav''"
    by code_simp
  have f: "open_rb stub_env ''e.WAV'' = Inr [1, 2, 3, 4]"
    by code_simp
  show ?thesis
    using transcoder_iff_not_wav [of "init_app []" stub_env "''e.WAV''"]
          transcoder_iff_not_wav [of "init_app []" stub_env "''a.mp3''"]
    unfolding w f using m by simp
qed

text \<open>
  C7, as stated, fails. The transcoder exits with status 1 and writes nothing; the
  pipeline feeds the empty buffer to the recognizer and returns an ordinary (empty)
  transcript, not an error.
\<close>

theorem transcoder_failure_ignored_counterexample:
  "subprocess_run stub_env (ffmpeg_argv ''a.mp3'') = Inr (1, [])
   \<and> fst (load_audio_file_task stub_env ''a.mp3'' (init_app [])) = Inr ''''
   \<and> calls (snd (load_audio_file_task stub_env ''a.mp3'' (init_app [])))
       = [Call_subprocess_run (ffmpeg_argv ''a.mp3''), Call_AcceptWaveform []]"
  by code_simp

text \<open>
  C7, amended. The pipeline examines neither the transcoder's exit status nor the size of
  its output. If the transcoder process could not be run (the call raises), the pipeline
  returns the string \<open>Error:\<close> followed by the message, without calling the recognizer. If
  the process ran, whatever it wrote to standard output, even nothing, is fed to the
  recognizer, and the outcome is the same as for exit status 0.
\<close>

theorem transcoder_status_not_examined:
  assumes "lower (snd (splitext p)) \<noteq> ''.wav''"
  shows "case subprocess_run E (ffmpeg_argv p) of
           Inl e \<Rightarrow>
             load_audio_file_task E p s
               = (Inr (''Error: '' @ e), log_call (Call_subprocess_run (ffmpeg_argv p)) s)
         | Inr (returncode, stdout) \<Rightarrow>
             take 2 (new_calls s (snd (load_audio_file_task E p s)))
               = [Call_subprocess_run (ffmpeg_argv p), Call_AcceptWaveform stdout]
             \<and> load_audio_file_task E p s
                 = load_audio_file_task (E\<lparr>subprocess_run := (\<lambda>argv. Inr (0, stdout))\<rparr>) p s"
proof (cases "subprocess_run E (ffmpeg_argv p)")
  case (Inl e)
  then have "audio_bytes E p = Inl e"
    using assms by (simp add: audio_bytes_transcoded)
  then show ?thesis
    using Inl assms by (simp add: load_task_source_fail source_call_def)
next
  case (Inr x)
  obtain returncode out where x: "x = (returncode, out)" by (cases x)
  let ?E' = "E\<lparr>subprocess_run := (\<lambda>argv. Inr (0, out))\<rparr>"
  have b: "audio_bytes E p = Inr out"
    using assms Inr x by (simp add: audio_bytes_transcoded)
  have b': "audio_bytes ?E' p = Inr out"
    using assms by (simp add: audio_bytes_transcoded)
  have "load_audio_file_task ?E' p s = recognize_buffer ?E' out (log_call (source_call p) s)"
    using b' by (simp add: load_task_factored)
  also have "\<dots> = recognize_buffer E out (log_call (source_call p) s)"
    by (rule recognize_buffer_env) simp_all
  also have "\<dots> = load_audio_file_task E p s"
    using b by (simp add: load_task_factored)
  finally have same: "load_audio_file_task E p s = load_audio_file_task ?E' p s"
    by simp
  have "take 2 (new_calls s (snd (load_audio_file_task E p s)))
          = [Call_subprocess_run (ffmpeg_argv p), Call_AcceptWaveform out]"
    unfolding load_task_new_calls using b assms by (simp add: source_call_def)
  then show ?thesis
    using Inr x same by simp
qed

text \<open>An instance: the \<open>.mp3\<close> path, with the transcoder that exits with status 1.\<close>

theorem transcoder_status_not_examined_witness:
  "lower (snd (splitext ''a.mp3'')) \<noteq> ''.wav''
   \<and> take 2 (new_calls (init_app []) (snd (load_audio_file_task stub_env ''a.mp3'' (init_app []))))
       = [Call_subprocess_run (ffmpeg_argv ''a.mp3''), Call_AcceptWaveform []]
   \<and> load_audio_file_task stub_env ''a.mp3'' (init_app [])
       = load_audio_file_task (stub_env\<lparr>subprocess_run := (\<lambda>argv. Inr (0, []))\<rparr>)
           ''a.mp3'' (init_app [])"
proof -
  have ext: "lower (snd (splitext ''a.mp3'')) \<noteq> ''.wav''"
    by code_simp
  have run: "subprocess_run stub_env (ffmpeg_argv ''a.mp3'') = Inr (1, [])"
    by (simp add: stub_env_def)
  have "take 2 (new_calls (init_app []) (snd (load_audio_file_task stub_env ''a.mp3'' (init_app []))))
       = [Call_subprocess_run (ffmpeg_argv ''a.mp3''), Call_AcceptWaveform []]
   \<and> load_audio_file_task stub_env ''a.mp3'' (init_app [])
       = load_audio_file_task (stub_env\<lparr>subprocess_run := (\<lambda>argv. Inr (0, []))\<rparr>)
           ''a.mp3'' (init_app [])"
    by (rule transcoder_status_not_examined
              [OF ext, of stub_env "init_app []", unfolded run sum.case prod.case])
  with ext show ?thesis by (rule conjI)
qed

subsection \<open>Repeated runs of the file pipeline\<close>

text \<open>
  C8. Two successive runs of the file pipeline on the same file should return the same
  text. The application has one recognizer, and a run that ends without an utterance
  boundary leaves its audio there without finalizing. Evaluated on the two-byte file,
  with a recognizer that is a function of its state and its input: the first run returns
  the empty string and the second returns \<open>hello\<close>.
\<close>

theorem successive_runs_differ:
  "fst (load_audio_file_task stub_env ''a.wav'' (init_app [])) = Inr ''''
   \<and> fst (load_audio_file_task stub_env ''a.wav''
            (snd (load_audio_file_task stub_env ''a.wav'' (init_app [])))) = Inr ''hello''"
  by code_simp

subsection \<open>The completion handler of the file pipeline\<close>

text \<open>
  C9. The completion handler of \<open>load_audio_file\<close> tells failure from success only by the
  prefix \<open>Error:\<close> of the string the worker returned. A string with the prefix is shown in
  an error dialog and the input pane keeps the placeholder \<open>Processing audio file...\<close>; a
  string without it is written to the input pane and no dialog is shown. So when the
  recognizer's transcript of a file itself begins with \<open>Error:\<close>, the transcript is
  presented as an error and never reaches the input pane.
\<close>

theorem file_outcome_told_by_prefix_alone:
  assumes "file_path \<noteq> []"
      and "fst (load_audio_file_task E file_path s) = Inr text"
  shows "(if startswith text ''Error:''
          then dialogs (load_audio_file E file_path s) = dialogs s @ [ShowError ''Error'' text]
               \<and> text_box (load_audio_file E file_path s) = ''Processing audio file...''
          else dialogs (load_audio_file E file_path s) = dialogs s
               \<and> text_box (load_audio_file E file_path s) = text)
         \<and> (audio_bytes E file_path = Inr data
              \<and> AcceptWaveform E (recognizer s) data = Inr (True, r)
              \<and> Result E r = Inr (result, r')
              \<longrightarrow> text = dict_get result ''text'' '''')"
proof -
  let ?s0 = "s\<lparr>text_box := ''Processing audio file...'',
                threads_started := Suc (threads_started s)\<rparr>"
  have "fst (load_audio_file_task E file_path ?s0) = fst (load_audio_file_task E file_path s)"
    by (rule load_task_result_recognizer) simp
  then have res: "fst (load_audio_file_task E file_path ?s0) = Inr text"
    using assms(2) by simp
  obtain s1 where task: "load_audio_file_task E file_path ?s0 = (Inr text, s1)"
    using res by (cases "load_audio_file_task E file_path ?s0") simp
  have frame: "text_box s1 = ''Processing audio file...''" "dialogs s1 = dialogs s"
    using load_task_frame(1,2) [of E file_path ?s0] task by simp_all
  have "load_audio_file E file_path s
          = load_audio_file_on_complete text (s1\<lparr>callbacks_run := Suc (callbacks_run s1)\<rparr>)"
    using assms(1) task by (simp add: load_audio_file_def run_in_thread_def)
  then have shown: "if startswith text ''Error:''
          then dialogs (load_audio_file E file_path s) = dialogs s @ [ShowError ''Error'' text]
               \<and> text_box (load_audio_file E file_path s) = ''Processing audio file...''
          else dialogs (load_audio_file E file_path s) = dialogs s
               \<and> text_box (load_audio_file E file_path s) = text"
    using frame by (simp add: load_audio_file_on_complete_def)
  have "text = dict_get result ''text'' ''''"
    if "audio_bytes E file_path = Inr data"
      and "AcceptWaveform E (recognizer s) data = Inr (True, r)"
      and "Result E r = Inr (result, r')"
    using load_task_accept_ok(2) [OF that(1,2)] that(3) assms(2) by simp
  with shown show ?thesis by blast
qed

text \<open>
  Two instances: the file whose transcript is \<open>Error: boom\<close>, and the file whose
  transcript is \<open>hello\<close>.
\<close>

theorem file_outcome_told_by_prefix_alone_witness:
  "''e.WAV'' \<noteq> []
   \<and> fst (load_audio_file_task stub_env ''e.WAV'' (init_app [])) = Inr ''Error: boom''
   \<and> audio_bytes stub_env ''e.WAV'' = Inr [1, 2, 3, 4]
   \<and> AcceptWaveform stub_env (recognizer (init_app [])) [1, 2, 3, 4] = Inr (True, [1, 2, 3, 4])
   \<and> Result stub_env [1, 2, 3, 4] = Inr ([(''text'', ''Error: boom'')], [])
   \<and> ''Error: boom'' = dict_get [(''text'', ''Error: boom'')] ''text'' ''''
   \<and> startswith ''Error: boom'' ''Error:''
   \<and> dialogs (load_audio_file stub_env ''e.WAV'' (init_app []))
       = [ShowError ''Error'' ''Error: boom'']
   \<and> text_box (load_audio_file stub_env ''e.WAV'' (init_app [])) = ''Processing audio file...''
   \<and> fst (load_audio_file_task stub_env ''h.wav'' (init_app [])) = Inr ''hello''
   \<and> \<not> startswith ''hello'' ''Error:''
   \<and> dialogs (load_audio_file stub_env ''h.wav'' (init_app [])) = []
   \<and> text_box (load_audio_file stub_env ''h.wav'' (init_app [])) = ''hello''"
proof -
  have p: "''e.WAV'' \<noteq> []" and q: "''h.wav'' \<noteq> []"
    by simp_all
  have t: "fst (load_audio_file_task stub_env ''e.WAV'' (init_app [])) = Inr ''Error: boom''"
    by code_simp
  have u: "fst (load_audio_file_task stub_env ''h.wav'' (init_app [])) = Inr ''hello''"
    by code_simp
  have b: "audio_bytes stub_env ''e.WAV'' = Inr [1, 2, 3, 4]"
    by code_simp
  have a: "AcceptWaveform stub_env (recognizer (init_app [])) [1, 2, 3, 4]
             = Inr (True, [1, 2, 3, 4])"
    by code_simp
  have r: "Result stub_env [1, 2, 3, 4] = Inr ([(''text'', ''Error: boom'')], [])"
    by code_simp
  have e: "startswith ''Error: boom'' ''Error:''" and h: "\<not> startswith ''hello'' ''Error:''"
    by code_simp+
  have i: "dialogs (init_app ([]::bytes)) = []"
    by (simp add: init_app_def)
  note first = file_outcome_told_by_prefix_alone
                 [OF p t, of "[1, 2, 3, 4]" "[1, 2, 3, 4]" "[(''text'', ''Error: boom'')]" "[]"]
  note second = file_outcome_told_by_prefix_alone [OF q u]
  show ?thesis
    using first second p t u b a r e h unfolding i by simp
qed

subsection \<open>Starting a recording\<close>

text \<open>
  C10. Every start of a push-to-talk recording clears the input pane and the output pane
  before it inserts the recording placeholder: afterwards the input pane holds exactly
  the placeholder and the output pane is empty, whatever the two panes showed before.
\<close>

theorem start_recording_clears_both_panes:
  "text_box (start_walkie_talkie_recording s) = ''Recording... Speak now.''
   \<and> placeholder_box (start_walkie_talkie_recording s) = []
   \<and> start_walkie_talkie_recording s
       = (reset_app (s\<lparr>is_recording := True, record_label := (''sunken'', ''red'')\<rparr>))
           \<lparr>text_box := ''Recording... Speak now.'',
            threads_started := Suc (threads_started s)\<rparr>"
  by (simp add: start_walkie_talkie_recording_def reset_app_def)

end
